theory Spec2Isabelle
  imports Main "HOL-Library.Word"
begin

section \<open>Stencil settings (StencilSettings.hpp, StencilSettings.cpp)\<close>

text \<open>
  The two enumerations of \<^verbatim>\<open>struct StencilSettings\<close>, in the order of the header.
\<close>

datatype Operation = Keep | Zero | Replace | IncrementClamp | DecrementClamp | Invert

datatype Function = Never | Less | LessEqual | Greater | GreaterEqual | Equal | NotEqual | Always

text \<open>
  The member data of \<^verbatim>\<open>StencilSettings\<close>: \<^verbatim>\<open>unsigned int stencilReference\<close> is a 32-bit
  word, \<^verbatim>\<open>Uint8 alphaReference\<close> an 8-bit word.
\<close>

record StencilSettings =
  stencilOperation :: Operation
  stencilFunction :: Function
  stencilReference :: "32 word"
  alphaFunction :: Function
  alphaReference :: "8 word"
  drawSelf :: bool

text \<open>
  The OpenGL enumerants that the translation tables return. The OpenGL header is not part
  of the sources; the values are those of the OpenGL specification
  (\<^verbatim>\<open>GL_KEEP 0x1E00\<close>, \<^verbatim>\<open>GL_EQUAL 0x0202\<close>, ...).
\<close>

definition GL_ZERO :: int where "GL_ZERO = 0"
definition GL_KEEP :: int where "GL_KEEP = 0x1E00"
definition GL_REPLACE :: int where "GL_REPLACE = 0x1E01"
definition GL_INCR :: int where "GL_INCR = 0x1E02"
definition GL_DECR :: int where "GL_DECR = 0x1E03"
definition GL_INVERT :: int where "GL_INVERT = 0x150A"
definition GL_NEVER :: int where "GL_NEVER = 0x0200"
definition GL_LESS :: int where "GL_LESS = 0x0201"
definition GL_EQUAL :: int where "GL_EQUAL = 0x0202"
definition GL_LEQUAL :: int where "GL_LEQUAL = 0x0203"
definition GL_GREATER :: int where "GL_GREATER = 0x0204"
definition GL_NOTEQUAL :: int where "GL_NOTEQUAL = 0x0205"
definition GL_GEQUAL :: int where "GL_GEQUAL = 0x0206"
definition GL_ALWAYS :: int where "GL_ALWAYS = 0x0207"

text \<open>
  \<^verbatim>\<open>StencilSettings::translateOperation\<close> and \<^verbatim>\<open>StencilSettings::translateFunction\<close>,
  one equation per \<^verbatim>\<open>case\<close> of the switch and in its order. Both are \<^verbatim>\<open>const\<close> members
  that do not read the object.
\<close>

fun translateOperation :: "Operation \<Rightarrow> int" where
  "translateOperation Keep = GL_KEEP"
| "translateOperation Zero = GL_ZERO"
| "translateOperation Replace = GL_REPLACE"
| "translateOperation IncrementClamp = GL_INCR"
| "translateOperation DecrementClamp = GL_INCR"
| "translateOperation Invert = GL_INVERT"

fun translateFunction :: "Function \<Rightarrow> int" where
  "translateFunction Never = GL_NEVER"
| "translateFunction Less = GL_EQUAL"
| "translateFunction LessEqual = GL_LEQUAL"
| "translateFunction Greater = GL_GREATER"
| "translateFunction GreaterEqual = GL_GEQUAL"
| "translateFunction Equal = GL_EQUAL"
| "translateFunction NotEqual = GL_NOTEQUAL"
| "translateFunction Always = GL_ALWAYS"

text \<open>
  \<^verbatim>\<open>operator ==\<close> and \<^verbatim>\<open>operator !=\<close> on \<^verbatim>\<open>StencilSettings\<close>: five comparisons, joined
  by \<^verbatim>\<open>&&\<close>, in the order of the source.
\<close>

definition StencilSettings_eq :: "StencilSettings \<Rightarrow> StencilSettings \<Rightarrow> bool" where
  "StencilSettings_eq left right \<longleftrightarrow>
     (stencilOperation left = stencilOperation right) \<and>
     (stencilFunction left = stencilFunction right) \<and>
     (stencilReference left = stencilReference right) \<and>
     (alphaFunction left = alphaFunction right) \<and>
     (alphaReference left = alphaReference right)"

definition StencilSettings_neq :: "StencilSettings \<Rightarrow> StencilSettings \<Rightarrow> bool" where
  "StencilSettings_neq left right \<longleftrightarrow> \<not> StencilSettings_eq left right"

text \<open>
  The six-argument constructor (function, operation, reference, alpha function, alpha
  reference, drawSelf) and the two predefined settings built with it.
\<close>

definition mkStencilSettings ::
  "Function \<Rightarrow> Operation \<Rightarrow> 32 word \<Rightarrow> Function \<Rightarrow> 8 word \<Rightarrow> bool \<Rightarrow> StencilSettings" where
  "mkStencilSettings stencilFunctionP stencilOperationP stencilReferenceP alphaFunctionP
       alphaReferenceP drawSelfP =
     \<lparr> stencilOperation = stencilOperationP, stencilFunction = stencilFunctionP,
       stencilReference = stencilReferenceP, alphaFunction = alphaFunctionP,
       alphaReference = alphaReferenceP, drawSelf = drawSelfP \<rparr>"

definition StencilCreate :: StencilSettings where
  "StencilCreate = mkStencilSettings Always Replace 1 GreaterEqual 255 False"

definition StencilTrace :: StencilSettings where
  "StencilTrace = mkStencilSettings Equal Keep 1 Always 255 True"


section \<open>The data of a submission\<close>

text \<open>
  Modelled from the spec: \<^verbatim>\<open>PrimitiveType.hpp\<close> is not among the sources. The three
  hardware topologies and the three connected variants of section 3 of the specification,
  under the names \<^verbatim>\<open>BatchTarget.hpp\<close> uses for them.
\<close>

datatype PrimitiveType = Points | Lines | LinesStrip | Triangles | TrianglesStrip | TrianglesFan

text \<open>
  Modelled from the spec: \<^verbatim>\<open>Vertex.hpp\<close> is not among the sources. A vertex is a
  position, a colour and a texture coordinate. Positions are floating-point pairs in the
  program; the accumulator only moves them around and hands them to the transform, so
  the point type \<open>'p\<close> and the colour type \<open>'c\<close> are parameters.
\<close>

record ('p, 'c) Vertex =
  position :: 'p
  color :: 'c
  texCoords :: 'p

text \<open>
  A texture is known to the accumulator through \<^verbatim>\<open>getNativeHandle()\<close> only;
  \<^verbatim>\<open>const Texture*\<close> is a \<open>Texture option\<close>, \<open>None\<close> the null pointer.
\<close>

datatype Texture = Texture (getNativeHandle: nat)

text \<open>
  \<^verbatim>\<open>RenderStates\<close>, with the five members that \<^verbatim>\<open>RenderStates.cpp\<close> initialises. The
  blend mode \<open>'b\<close> and the shader \<open>'s\<close> are opaque; a \<^verbatim>\<open>Transform\<close> is the map on points
  that \<^verbatim>\<open>transform * position\<close> applies.
\<close>

record ('p, 'b, 's) RenderStates =
  blendMode :: 'b
  stencilSettings :: StencilSettings
  transform :: "'p \<Rightarrow> 'p"
  texture :: "Texture option"
  shader :: 's


section \<open>The batch target (BatchTarget.hpp)\<close>

text \<open>
  The state of a \<^verbatim>\<open>BatchTarget\<close>: its five private members, and the members inherited
  from \<^verbatim>\<open>RenderTarget\<close> that its code reads or writes (\<^verbatim>\<open>getView()\<close> returns \<open>m_view\<close>;
  \<^verbatim>\<open>m_cache.viewChanged\<close>, \<^verbatim>\<open>m_cache.lastTextureId\<close>, \<^verbatim>\<open>m_cache.lastBlendMode\<close>).
  The view type \<open>'w\<close> is opaque.
\<close>

record ('p, 'c, 'b, 'w) BatchTarget =
  m_hasDrawnSomething :: bool
  m_viewWasUsed :: bool
  m_cachedTexture :: "Texture option"
  m_cachedPrimitiveType :: PrimitiveType
  m_vertexArray :: "('p, 'c) Vertex list"
  m_view :: 'w
  m_cache_viewChanged :: bool
  m_cache_lastTextureId :: nat
  m_cache_lastBlendMode :: 'b

text \<open>
  The four assertions of \<^verbatim>\<open>draw\<close>, one constructor each: the contract violation that the
  specification calls StateConflict. Assertions are modelled enabled (no \<^verbatim>\<open>NDEBUG\<close>).
\<close>

datatype StateConflict = ViewChanged | PrimitiveTypeChanged | TextureChanged | BlendModeChanged

definition clearView :: "('p, 'c, 'b, 'w) BatchTarget \<Rightarrow> ('p, 'c, 'b, 'w) BatchTarget" where
  "clearView b = b\<lparr> m_viewWasUsed := False, m_cache_viewChanged := False \<rparr>"

definition clear :: "('p, 'c, 'b, 'w) BatchTarget \<Rightarrow> ('p, 'c, 'b, 'w) BatchTarget" where
  "clear b = b\<lparr> m_hasDrawnSomething := False, m_cachedTexture := None, m_vertexArray := [] \<rparr>"

text \<open>
  The constructor runs \<^verbatim>\<open>clear()\<close>, \<^verbatim>\<open>initialize()\<close> and \<^verbatim>\<open>clearView()\<close>. It
  assigns neither \<^verbatim>\<open>m_cachedPrimitiveType\<close> nor the cached texture id and blend mode, and
  \<^verbatim>\<open>RenderTarget::initialize\<close>, which sets the view, is not among the sources: the four
  values are parameters.
\<close>

definition BatchTarget_new ::
  "PrimitiveType \<Rightarrow> 'w \<Rightarrow> nat \<Rightarrow> 'b \<Rightarrow> ('p, 'c, 'b, 'w) BatchTarget" where
  "BatchTarget_new ty0 view0 textureId0 blendMode0 =
     clearView (clear
       \<lparr> m_hasDrawnSomething = False, m_viewWasUsed = False, m_cachedTexture = None,
         m_cachedPrimitiveType = ty0, m_vertexArray = [], m_view = view0,
         m_cache_viewChanged = False, m_cache_lastTextureId = textureId0,
         m_cache_lastBlendMode = blendMode0 \<rparr>)"

text \<open>
  The two statements that transform a vertex before it is stored (lines 144 and 145):
  the copy of \<^verbatim>\<open>vertices[i]\<close> with \<^verbatim>\<open>states.transform\<close> applied to its position.
\<close>

definition transformedVertex ::
  "('p, 'b, 's) RenderStates \<Rightarrow> ('p, 'c) Vertex \<Rightarrow> ('p, 'c) Vertex" where
  "transformedVertex states v = v\<lparr> position := transform states (position v) \<rparr>"

text \<open>
  The \<^verbatim>\<open>for\<close> loop of \<^verbatim>\<open>draw\<close> (lines 119 to 152). The arguments are the original primitive
  type, the render states, the loop index \<open>i\<close>, \<^verbatim>\<open>firstVectorInsertedIndex\<close>, the input
  vertices from index \<open>i\<close> on, and \<^verbatim>\<open>m_vertexArray\<close>. \<^verbatim>\<open>firstVectorInsertedIndex\<close> starts
  as \<^verbatim>\<open>-1\<close>, which no index of a vector can equal: it is \<open>None\<close> here. The reads
  \<^verbatim>\<open>back()\<close> and \<^verbatim>\<open>m_vertexArray[...]\<close> are in range whenever the loop is entered with
  \<open>i = 0\<close>, because \<open>i\<close> vertices have been pushed before the read.
\<close>

fun appendVertices ::
  "PrimitiveType \<Rightarrow> ('p, 'b, 's) RenderStates \<Rightarrow> nat \<Rightarrow> nat option \<Rightarrow>
   ('p, 'c) Vertex list \<Rightarrow> ('p, 'c) Vertex list \<Rightarrow> ('p, 'c) Vertex list" where
  "appendVertices originalType states i firstVectorInsertedIndex [] arr = arr"
| "appendVertices originalType states i firstVectorInsertedIndex (v # vertices) arr =
     (let arr1 =
            (if originalType = LinesStrip \<and> i > 0 then arr @ [last arr]
             else if originalType = TrianglesStrip \<and> i > 2 then
               (let lastIndex = length arr - 1;
                    secondToLastIndex = length arr - 2;
                    a = arr @ [arr ! secondToLastIndex]
                in a @ [a ! lastIndex])
             else if originalType = TrianglesFan \<and> i > 2 then
               (let lastIndex = length arr - 1;
                    a = arr @ [arr ! the firstVectorInsertedIndex]
                in a @ [a ! lastIndex])
             else arr);
          arr2 = arr1 @ [transformedVertex states v];
          first' = (if firstVectorInsertedIndex = None then Some (length arr2 - 1)
                    else firstVectorInsertedIndex)
      in appendVertices originalType states (i + 1) first' vertices arr2)"

text \<open>
  \<^verbatim>\<open>BatchTarget::draw(const Vertex*, std::size_t, PrimitiveType, const RenderStates&)\<close>.
  The pointer and the count are the list \<open>vertices\<close>. A failed assertion is \<open>Inl\<close>; the
  assertions are tried in the order of the source.
\<close>

definition draw ::
  "('p, 'c, 'b, 'w) BatchTarget \<Rightarrow> ('p, 'c) Vertex list \<Rightarrow> PrimitiveType \<Rightarrow>
   ('p, 'b, 's) RenderStates \<Rightarrow> StateConflict + ('p, 'c, 'b, 'w) BatchTarget" where
  "draw b vertices originalType states =
     (let ty = (if originalType = LinesStrip then Lines
                else if originalType = TrianglesStrip then Triangles
                else if originalType = TrianglesFan then Triangles
                else originalType);
          textureId = (case texture states of Some t \<Rightarrow> getNativeHandle t | None \<Rightarrow> 0);
          push = (\<lambda>b1. b1\<lparr> m_vertexArray :=
                     appendVertices originalType states 0 None vertices (m_vertexArray b1) \<rparr>)
      in if m_hasDrawnSomething b then
           (if m_cache_viewChanged b then Inl ViewChanged
            else if m_cachedPrimitiveType b \<noteq> ty then Inl PrimitiveTypeChanged
            else if textureId \<noteq> m_cache_lastTextureId b then Inl TextureChanged
            else if m_cache_lastBlendMode b \<noteq> blendMode states then Inl BlendModeChanged
            else Inr (push b))
         else
           Inr (push (b\<lparr> m_hasDrawnSomething := True,
                         m_viewWasUsed := (if m_cache_viewChanged b then True else m_viewWasUsed b),
                         m_cache_viewChanged := False,
                         m_cachedTexture := texture states,
                         m_cache_lastTextureId := textureId,
                         m_cachedPrimitiveType := ty \<rparr>)))"

text \<open>
  A caller that issues several submissions one after the other; the first failed
  assertion ends the program.
\<close>

fun draws ::
  "('p, 'c, 'b, 'w) BatchTarget \<Rightarrow>
   (('p, 'c) Vertex list \<times> PrimitiveType \<times> ('p, 'b, 's) RenderStates) list \<Rightarrow>
   StateConflict + ('p, 'c, 'b, 'w) BatchTarget" where
  "draws b [] = Inr b"
| "draws b ((vertices, ty, states) # rest) =
     (case draw b vertices ty states of Inl e \<Rightarrow> Inl e | Inr b' \<Rightarrow> draws b' rest)"


section \<open>The render target that a batch is drawn to\<close>

text \<open>
  Modelled from the spec: \<^verbatim>\<open>RenderTarget.hpp\<close> is not among the sources. Section 6 of the
  specification gives the surface as \<^verbatim>\<open>getView()\<close>, \<^verbatim>\<open>setView(v)\<close>, \<^verbatim>\<open>getDefaultView()\<close> and
  \<^verbatim>\<open>draw(vertexPointer, count, category, renderState)\<close>. The surface here is its view, its
  default view and the draw calls it has received, each with the view in effect when it
  arrived.
\<close>

record ('p, 'c, 'b, 's, 'w) DrawCall =
  dc_view :: 'w
  dc_vertices :: "('p, 'c) Vertex list"
  dc_vertexCount :: nat
  dc_type :: PrimitiveType
  dc_states :: "('p, 'b, 's) RenderStates"

record ('p, 'c, 'b, 's, 'w) RenderTarget =
  rt_view :: 'w
  rt_defaultView :: 'w
  rt_drawCalls :: "('p, 'c, 'b, 's, 'w) DrawCall list"

definition getView :: "('p, 'c, 'b, 's, 'w) RenderTarget \<Rightarrow> 'w" where
  "getView target = rt_view target"

definition getDefaultView :: "('p, 'c, 'b, 's, 'w) RenderTarget \<Rightarrow> 'w" where
  "getDefaultView target = rt_defaultView target"

definition setView ::
  "('p, 'c, 'b, 's, 'w) RenderTarget \<Rightarrow> 'w \<Rightarrow> ('p, 'c, 'b, 's, 'w) RenderTarget" where
  "setView target v = target\<lparr> rt_view := v \<rparr>"

definition RenderTarget_draw ::
  "('p, 'c, 'b, 's, 'w) RenderTarget \<Rightarrow> ('p, 'c) Vertex list \<Rightarrow> nat \<Rightarrow> PrimitiveType \<Rightarrow>
   ('p, 'b, 's) RenderStates \<Rightarrow> ('p, 'c, 'b, 's, 'w) RenderTarget" where
  "RenderTarget_draw target vertices vertexCount ty states =
     target\<lparr> rt_drawCalls := rt_drawCalls target @
       [\<lparr> dc_view = rt_view target, dc_vertices = vertices, dc_vertexCount = vertexCount,
          dc_type = ty, dc_states = states \<rparr>] \<rparr>"

text \<open>
  \<^verbatim>\<open>BatchTarget::draw(RenderTarget&, RenderStates) const\<close> (lines 219 to 234): the batch
  is read only, the target is returned updated. It holds no assertion.
\<close>

definition draw_target ::
  "('p, 'c, 'b, 'w) BatchTarget \<Rightarrow> ('p, 'c, 'b, 's, 'w) RenderTarget \<Rightarrow>
   ('p, 'b, 's) RenderStates \<Rightarrow> ('p, 'c, 'b, 's, 'w) RenderTarget" where
  "draw_target b target states =
     (let backupView = getView target;
          target1 = (if m_viewWasUsed b then setView target (m_view b)
                     else setView target (getDefaultView target));
          states1 = states\<lparr> texture := m_cachedTexture b \<rparr>;
          states2 = states1\<lparr> blendMode := m_cache_lastBlendMode b \<rparr>;
          target2 = RenderTarget_draw target1 (m_vertexArray b) (length (m_vertexArray b))
                      (m_cachedPrimitiveType b) states2
      in if m_viewWasUsed b then setView target2 backupView else target2)"


text \<open>
  How a surface reads a vertex stream: \<^verbatim>\<open>Lines\<close> takes the vertices two by two,
  \<^verbatim>\<open>Triangles\<close> three by three, from the start of the stream; vertices left over at
  the end make no primitive.
\<close>

fun lines_of :: "'a list \<Rightarrow> ('a \<times> 'a) list" where
  "lines_of (a # b # rest) = (a, b) # lines_of rest"
| "lines_of _ = []"

fun triangles_of :: "'a list \<Rightarrow> ('a \<times> 'a \<times> 'a) list" where
  "triangles_of (a # b # c # rest) = (a, b, c) # triangles_of rest"
| "triangles_of _ = []"


text \<open>
  \<^verbatim>\<open>RenderStates::Default\<close> of \<^verbatim>\<open>RenderStates.cpp\<close>: the alpha blend mode, the stencil
  settings \<^verbatim>\<open>(Always, Keep, 0, GreaterEqual, 0, true)\<close>, the identity transform, no texture
  and no shader. The opaque blend mode and the null shader are parameters.
\<close>

definition RenderStates_Default :: "'b \<Rightarrow> 's \<Rightarrow> ('p, 'b, 's) RenderStates" where
  "RenderStates_Default blendAlpha nullShader =
     \<lparr> blendMode = blendAlpha,
       stencilSettings = mkStencilSettings Always Keep 0 GreaterEqual 0 True,
       transform = (\<lambda>p. p), texture = None, shader = nullShader \<rparr>"

text \<open>
  A vertex at an integer grid point, with colour \<open>0\<close> and texture coordinate \<open>(0, 0)\<close>:
  the corners of the square of the scenario in section 8 of the specification are
  \<open>corner 0 0\<close>, \<open>corner 1 0\<close>, \<open>corner 1 1\<close> and \<open>corner 0 1\<close>.
\<close>

definition corner :: "int \<Rightarrow> int \<Rightarrow> (int \<times> int, nat) Vertex" where
  "corner x y = \<lparr> position = (x, y), color = 0, texCoords = (0, 0) \<rparr>"


section \<open>Stencil translation and equality\<close>

text \<open>
  C8. The translation tables are not one-to-one: \<^verbatim>\<open>translateFunction\<close> sends the two
  distinct functions Less and Equal to the same OpenGL code (that of Equal), and
  \<^verbatim>\<open>translateOperation\<close> sends the two distinct operations IncrementClamp and
  DecrementClamp to the same OpenGL code (that of IncrementClamp).
\<close>

theorem translation_tables_not_injective:
  "translateFunction Less = translateFunction Equal \<and> Less \<noteq> Equal \<and>
   translateFunction Less = GL_EQUAL \<and>
   translateOperation IncrementClamp = translateOperation DecrementClamp \<and>
   IncrementClamp \<noteq> DecrementClamp \<and>
   translateOperation DecrementClamp = GL_INCR"
  by simp

text \<open>
  C9. Equality of stencil settings ignores \<^verbatim>\<open>drawSelf\<close>: two settings that agree on the
  stencil operation, the stencil function, the stencil reference, the alpha function and
  the alpha reference and differ in \<^verbatim>\<open>drawSelf\<close> are equal for \<^verbatim>\<open>operator ==\<close> and not
  different for \<^verbatim>\<open>operator !=\<close>.
\<close>

theorem StencilSettings_eq_ignores_drawSelf:
  assumes "stencilOperation l = stencilOperation r"
    and "stencilFunction l = stencilFunction r"
    and "stencilReference l = stencilReference r"
    and "alphaFunction l = alphaFunction r"
    and "alphaReference l = alphaReference r"
    and "drawSelf l \<noteq> drawSelf r"
  shows "StencilSettings_eq l r \<and> \<not> StencilSettings_neq l r"
  using assms by (simp add: StencilSettings_eq_def StencilSettings_neq_def)

theorem StencilSettings_eq_ignores_drawSelf_witness:
  "drawSelf StencilCreate \<noteq> drawSelf (StencilCreate\<lparr> drawSelf := True \<rparr>) \<and>
   StencilCreate \<noteq> StencilCreate\<lparr> drawSelf := True \<rparr> \<and>
   StencilSettings_eq StencilCreate (StencilCreate\<lparr> drawSelf := True \<rparr>) \<and>
   \<not> StencilSettings_neq StencilCreate (StencilCreate\<lparr> drawSelf := True \<rparr>)"
proof -
  let ?r = "StencilCreate\<lparr> drawSelf := True \<rparr>"
  have d: "drawSelf StencilCreate \<noteq> drawSelf ?r"
    by (simp add: StencilCreate_def mkStencilSettings_def)
  have n: "StencilCreate \<noteq> ?r"
  proof
    assume "StencilCreate = ?r"
    then have "drawSelf StencilCreate = drawSelf ?r" by (rule arg_cong)
    with d show False by contradiction
  qed
  from StencilSettings_eq_ignores_drawSelf [of StencilCreate ?r, OF _ _ _ _ _ d]
  have "StencilSettings_eq StencilCreate ?r \<and> \<not> StencilSettings_neq StencilCreate ?r"
    by simp
  with d n show ?thesis by simp
qed


section \<open>The decomposition loop\<close>

text \<open>
  The loop never reads what was stored before the call: run on a buffer \<open>pre @ arr\<close> in
  which \<open>arr\<close> holds what this call has pushed so far, it leaves \<open>pre\<close> alone and does to
  \<open>arr\<close> what it would do without \<open>pre\<close>.
\<close>

lemma appendVertices_prefix:
  "i \<le> length arr \<Longrightarrow> (i = 0 \<longrightarrow> arr = []) \<Longrightarrow>
   appendVertices ty st i (if i = 0 then None else Some (length pre)) vs (pre @ arr) =
   pre @ appendVertices ty st i (if i = 0 then None else Some 0) vs arr"
proof (induction vs arbitrary: i arr)
  case Nil
  then show ?case by simp
next
  case (Cons v vs)
  let ?tv = "transformedVertex st v"
  show ?case
  proof (cases "i = 0")
    case True
    with Cons.prems have arr: "arr = []" by simp
    have "appendVertices ty st (Suc 0) (if Suc 0 = 0 then None else Some (length pre)) vs (pre @ [?tv])
        = pre @ appendVertices ty st (Suc 0) (if Suc 0 = 0 then None else Some 0) vs [?tv]"
      by (rule Cons.IH) simp_all
    with True arr show ?thesis by (simp add: Let_def)
  next
    case False
    with Cons.prems have ne: "arr \<noteq> []" and len: "i \<le> length arr" by auto
    have step: "\<And>a. length arr < length a \<Longrightarrow>
        appendVertices ty st (Suc i) (Some (length pre)) vs (pre @ a) =
        pre @ appendVertices ty st (Suc i) (Some 0) vs a"
      using Cons.IH [of "Suc i"] len by simp
    show ?thesis
    proof (cases "ty = LinesStrip")
      case True
      with False ne step [of "arr @ [last arr, ?tv]"] show ?thesis
        by (simp add: Let_def)
    next
      case nl: False
      show ?thesis
      proof (cases "2 < i")
        case True
        with len have l3: "3 \<le> length arr" by simp
        have e2: "(pre @ arr) ! (length pre + length arr - 2) = arr ! (length arr - 2)"
          using l3 by (auto simp: nth_append)
        have e1: "(pre @ arr) ! (length pre + length arr - Suc 0) = arr ! (length arr - Suc 0)"
          using l3 by (auto simp: nth_append)
        have e1': "\<And>x. (pre @ arr @ [x]) ! (length pre + length arr - Suc 0) = arr ! (length arr - Suc 0)"
          using l3 by (auto simp: nth_append)
        have e1'': "\<And>x. (arr @ [x]) ! (length arr - Suc 0) = arr ! (length arr - Suc 0)"
          using l3 by (auto simp: nth_append)
        have e0: "(pre @ arr) ! length pre = arr ! 0"
          using l3 by (auto simp: nth_append)
        show ?thesis
        proof (cases "ty = TrianglesStrip")
          case True
          with \<open>2 < i\<close> False
            step [of "arr @ [arr ! (length arr - 2), arr ! (length arr - 1), ?tv]"]
          show ?thesis
            by (simp add: Let_def e2 e1 e1' e1'')
        next
          case ns: False
          show ?thesis
          proof (cases "ty = TrianglesFan")
            case True
            with \<open>2 < i\<close> False
              step [of "arr @ [arr ! 0, arr ! (length arr - 1), ?tv]"]
            show ?thesis
              by (simp add: Let_def e0 e1 e1' e1'')
          next
            case False
            with nl ns \<open>i \<noteq> 0\<close> step [of "arr @ [?tv]"] show ?thesis
              by (simp add: Let_def)
          qed
        qed
      next
        case False
        with nl \<open>i \<noteq> 0\<close> step [of "arr @ [?tv]"] show ?thesis
          by (simp add: Let_def)
      qed
    qed
  qed
qed

lemma appendVertices_append:
  "appendVertices ty st 0 None vs arr = arr @ appendVertices ty st 0 None vs []"
  using appendVertices_prefix [of 0 "[]" ty st arr vs] by simp


lemma fan_loop:
  "2 < i \<Longrightarrow> f < length arr \<Longrightarrow>
   appendVertices TrianglesFan st i (Some f) vs arr =
   arr @ concat (map (\<lambda>(b, c). [arr ! f, b, c])
                  (zip (last arr # map (transformedVertex st) vs) (map (transformedVertex st) vs)))"
proof (induction vs arbitrary: i arr)
  case Nil
  then show ?case by simp
next
  case (Cons v vs)
  let ?tv = "transformedVertex st v"
  let ?arr2 = "arr @ [arr ! f, last arr, ?tv]"
  from Cons.prems have ne: "arr \<noteq> []" by auto
  have lastIndex: "(arr @ [arr ! f]) ! (length arr - 1) = last arr"
    using ne by (simp add: nth_append last_conv_nth)
  have "appendVertices TrianglesFan st i (Some f) (v # vs) arr =
        appendVertices TrianglesFan st (Suc i) (Some f) vs ?arr2"
    using Cons.prems lastIndex by (simp add: Let_def)
  also have "\<dots> = ?arr2 @ concat (map (\<lambda>(b, c). [?arr2 ! f, b, c])
                  (zip (last ?arr2 # map (transformedVertex st) vs) (map (transformedVertex st) vs)))"
    using Cons.prems by (intro Cons.IH) simp_all
  also have "?arr2 ! f = arr ! f"
    using Cons.prems by (simp add: nth_append)
  finally show ?case by simp
qed

lemma strip_loop:
  "2 < i \<Longrightarrow> 2 \<le> length arr \<Longrightarrow>
   appendVertices TrianglesStrip st i fo vs arr =
   arr @ concat (map (\<lambda>(a, b, c). [a, b, c])
                  (zip (arr ! (length arr - 2) # last arr # map (transformedVertex st) vs)
                    (zip (last arr # map (transformedVertex st) vs) (map (transformedVertex st) vs))))"
proof (induction vs arbitrary: i arr fo)
  case Nil
  then show ?case by simp
next
  case (Cons v vs)
  let ?tv = "transformedVertex st v"
  let ?arr2 = "arr @ [arr ! (length arr - 2), last arr, ?tv]"
  from Cons.prems have ne: "arr \<noteq> []" by auto
  have lastIndex: "(arr @ [arr ! (length arr - 2)]) ! (length arr - 1) = last arr"
    using ne by (simp add: nth_append last_conv_nth)
  have "appendVertices TrianglesStrip st i fo (v # vs) arr =
        appendVertices TrianglesStrip st (Suc i) (if fo = None then Some (length ?arr2 - 1) else fo) vs ?arr2"
    using Cons.prems lastIndex by (simp add: Let_def)
  also have "\<dots> = ?arr2 @ concat (map (\<lambda>(a, b, c). [a, b, c])
                  (zip (?arr2 ! (length ?arr2 - 2) # last ?arr2 # map (transformedVertex st) vs)
                    (zip (last ?arr2 # map (transformedVertex st) vs) (map (transformedVertex st) vs))))"
    using Cons.prems by (intro Cons.IH) simp_all
  also have "?arr2 ! (length ?arr2 - 2) = last arr"
    by (simp add: nth_append)
  finally show ?case by simp
qed

lemma simple_loop:
  "ty \<noteq> LinesStrip \<Longrightarrow> ty \<noteq> TrianglesStrip \<Longrightarrow> ty \<noteq> TrianglesFan \<Longrightarrow>
   appendVertices ty st i fo vs arr = arr @ map (transformedVertex st) vs"
  by (induction vs arbitrary: i arr fo) (simp_all add: Let_def)


lemma zip_tl_index:
  "zip (tl xs) (tl (tl xs)) = map (\<lambda>k. (xs ! Suc k, xs ! Suc (Suc k))) [0..<length xs - 2]"
  by (auto simp: list_eq_iff_nth_eq nth_tl)

lemma zip3_index:
  "zip xs (zip (tl xs) (tl (tl xs))) =
   map (\<lambda>k. (xs ! k, xs ! Suc k, xs ! Suc (Suc k))) [0..<length xs - 2]"
  by (auto simp: list_eq_iff_nth_eq nth_tl)

lemma fan_from_empty:
  assumes "3 \<le> length vs"
  shows "appendVertices TrianglesFan st 0 None vs [] =
         concat (map (\<lambda>k. [transformedVertex st (vs ! 0), transformedVertex st (vs ! Suc k),
                              transformedVertex st (vs ! Suc (Suc k))]) [0..<length vs - 2])"
proof -
  let ?t = "transformedVertex st"
  let ?tvs = "map ?t vs"
  from assms obtain v0 v1 v2 rest where vs: "vs = v0 # v1 # v2 # rest"
    by (metis One_nat_def Suc_1 Suc_le_length_iff numeral_3_eq_3)
  have "appendVertices TrianglesFan st 0 None vs [] =
        appendVertices TrianglesFan st 3 (Some 0) rest [?t v0, ?t v1, ?t v2]"
    by (simp add: vs Let_def numeral_3_eq_3)
  also have "\<dots> = [?t v0, ?t v1, ?t v2] @ concat (map (\<lambda>(b, c). [?t v0, b, c])
                  (zip (?t v2 # map ?t rest) (map ?t rest)))"
    by (subst fan_loop) simp_all
  also have "\<dots> = concat (map (\<lambda>(b, c). [?t v0, b, c]) (zip (tl ?tvs) (tl (tl ?tvs))))"
    by (simp add: vs)
  also have "\<dots> = concat (map (\<lambda>k. [?t v0, ?tvs ! Suc k, ?tvs ! Suc (Suc k)]) [0..<length ?tvs - 2])"
    by (simp only: zip_tl_index map_map comp_def prod.case)
  also have "\<dots> = concat (map (\<lambda>k. [?t (vs ! 0), ?t (vs ! Suc k), ?t (vs ! Suc (Suc k))])
                           [0..<length vs - 2])"
  proof -
    have "v0 = vs ! 0" by (simp add: vs)
    then show ?thesis
      by (intro arg_cong [where f = concat] map_cong) auto
  qed
  finally show ?thesis .
qed

lemma strip_from_empty:
  assumes "3 \<le> length vs"
  shows "appendVertices TrianglesStrip st 0 None vs [] =
         concat (map (\<lambda>k. [transformedVertex st (vs ! k), transformedVertex st (vs ! Suc k),
                              transformedVertex st (vs ! Suc (Suc k))]) [0..<length vs - 2])"
proof -
  let ?t = "transformedVertex st"
  let ?tvs = "map ?t vs"
  from assms obtain v0 v1 v2 rest where vs: "vs = v0 # v1 # v2 # rest"
    by (metis One_nat_def Suc_1 Suc_le_length_iff numeral_3_eq_3)
  have "appendVertices TrianglesStrip st 0 None vs [] =
        appendVertices TrianglesStrip st 3 (Some 0) rest [?t v0, ?t v1, ?t v2]"
    by (simp add: vs Let_def numeral_3_eq_3)
  also have "\<dots> = [?t v0, ?t v1, ?t v2] @ concat (map (\<lambda>(a, b, c). [a, b, c])
                  (zip (?t v1 # ?t v2 # map ?t rest) (zip (?t v2 # map ?t rest) (map ?t rest))))"
    by (subst strip_loop) simp_all
  also have "\<dots> = concat (map (\<lambda>(a, b, c). [a, b, c]) (zip ?tvs (zip (tl ?tvs) (tl (tl ?tvs)))))"
    by (simp add: vs)
  also have "\<dots> = concat (map (\<lambda>k. [?tvs ! k, ?tvs ! Suc k, ?tvs ! Suc (Suc k)]) [0..<length ?tvs - 2])"
    by (simp only: zip3_index map_map comp_def prod.case)
  also have "\<dots> = concat (map (\<lambda>k. [?t (vs ! k), ?t (vs ! Suc k), ?t (vs ! Suc (Suc k))])
                           [0..<length vs - 2])"
    by (rule arg_cong [where f = concat], rule map_cong) auto
  finally show ?thesis .
qed

lemma length_concat_triples:
  "length (concat (map (\<lambda>k. [f k, g k, h k]) ks)) = 3 * length ks"
  by (induction ks) simp_all

lemma triangles_of_concat_triples:
  "triangles_of (concat (map (\<lambda>k. [f k, g k, h k]) ks)) = map (\<lambda>k. (f k, g k, h k)) ks"
  by (induction ks) simp_all

lemma triangles_of_append:
  "length xs mod 3 = 0 \<Longrightarrow> triangles_of (xs @ ys) = triangles_of xs @ triangles_of ys"
proof (induction xs rule: triangles_of.induct)
  case (1 a b c rest)
  then show ?case by simp
qed simp_all


section \<open>What one submission stores\<close>

text \<open>
  A submission that passes the checks appends to the stream what the loop would store
  in an empty buffer; nothing stored earlier is changed.
\<close>

lemma draw_Inr_vertexArray:
  assumes "draw b vs ty st = Inr b'"
  shows "m_vertexArray b' = m_vertexArray b @ appendVertices ty st 0 None vs []"
proof -
  have "m_vertexArray b' = appendVertices ty st 0 None vs (m_vertexArray b)"
    using assms by (auto simp: draw_def Let_def split: if_splits)
  then show ?thesis by (simp add: appendVertices_append [of ty st vs "m_vertexArray b"])
qed

lemma triangles_of_short: "length xs < 3 \<Longrightarrow> triangles_of xs = []"
  by (induction xs rule: triangles_of.induct) simp_all

lemma strip_triangles:
  "triangles_of (appendVertices TrianglesStrip st 0 None vs []) =
   map (\<lambda>k. (transformedVertex st (vs ! k), transformedVertex st (vs ! (k + 1)),
             transformedVertex st (vs ! (k + 2)))) [0..<length vs - 2]"
proof (cases "3 \<le> length vs")
  case True
  then show ?thesis
    by (simp add: strip_from_empty triangles_of_concat_triples)
next
  case False
  then have short: "length vs < 3" by simp
  have "appendVertices TrianglesStrip st 0 None vs [] = map (transformedVertex st) vs"
  proof (cases vs)
    case Nil
    then show ?thesis by simp
  next
    case (Cons v0 r0)
    show ?thesis
    proof (cases r0)
      case Nil
      with Cons show ?thesis by (simp add: Let_def)
    next
      case (Cons v1 r1)
      with short \<open>vs = v0 # r0\<close> have "r1 = []" by simp
      with Cons \<open>vs = v0 # r0\<close> show ?thesis by (simp add: Let_def)
    qed
  qed
  with short show ?thesis by (simp add: triangles_of_short)
qed

lemmas example_defs = draw_def BatchTarget_new_def clear_def clearView_def RenderStates_Default_def
  transformedVertex_def corner_def Let_def

text \<open>
  What is stored for an input vertex: its position is the transform of the render states
  applied to the input position; colour and texture coordinate are those of the input.
\<close>

lemma transformedVertex_fields:
  "position (transformedVertex st v) = transform st (position v)"
  "color (transformedVertex st v) = color v"
  "texCoords (transformedVertex st v) = texCoords v"
  by (simp_all add: transformedVertex_def)

text \<open>
  C6. A TrianglesFan submission of N input vertices, N at least 3, stores 3(N - 2)
  vertices after those already in the stream: the triangles (v0, v1, v2), (v0, v2, v3),
  ..., (v0, v(N-2), v(N-1)) of the transformed input, where a transformed input vertex is
  the input vertex with the transform of the render states applied to its position. Every
  stored triangle holds the transformed first input vertex.
\<close>

theorem TrianglesFan_stored:
  assumes "draw b vs TrianglesFan st = Inr b'" and "3 \<le> length vs"
  shows "m_vertexArray b' = m_vertexArray b @
           concat (map (\<lambda>k. [(vs ! 0)\<lparr> position := transform st (position (vs ! 0)) \<rparr>,
                               (vs ! (k + 1))\<lparr> position := transform st (position (vs ! (k + 1))) \<rparr>,
                               (vs ! (k + 2))\<lparr> position := transform st (position (vs ! (k + 2))) \<rparr>])
                       [0..<length vs - 2]) \<and>
         length (m_vertexArray b') = length (m_vertexArray b) + 3 * (length vs - 2) \<and>
         triangles_of (drop (length (m_vertexArray b)) (m_vertexArray b')) =
           map (\<lambda>k. ((vs ! 0)\<lparr> position := transform st (position (vs ! 0)) \<rparr>,
                     (vs ! (k + 1))\<lparr> position := transform st (position (vs ! (k + 1))) \<rparr>,
                     (vs ! (k + 2))\<lparr> position := transform st (position (vs ! (k + 2))) \<rparr>))
               [0..<length vs - 2]"
proof -
  let ?t = "\<lambda>v :: ('a, 'b) Vertex. v\<lparr> position := transform st (position v) \<rparr>"
  let ?seg = "concat (map (\<lambda>k. [?t (vs ! 0), ?t (vs ! (k + 1)), ?t (vs ! (k + 2))])
                       [0..<length vs - 2])"
  have stored: "appendVertices TrianglesFan st 0 None vs [] = ?seg"
    using fan_from_empty [OF assms(2), of st] by (simp add: transformedVertex_def)
  have arr: "m_vertexArray b' = m_vertexArray b @ ?seg"
    using draw_Inr_vertexArray [OF assms(1)] stored by simp
  have len: "length ?seg = 3 * (length vs - 2)"
    by (simp add: length_concat_triples)
  have tri: "triangles_of ?seg =
           map (\<lambda>k. (?t (vs ! 0), ?t (vs ! (k + 1)), ?t (vs ! (k + 2)))) [0..<length vs - 2]"
    by (rule triangles_of_concat_triples)
  from arr len tri show ?thesis by simp
qed

text \<open>
  The fan of the four corners of a square, moved by (10, 20) and submitted behind one
  stored triangle, stores the six moved vertices of the triangles (c0, c1, c2) and
  (c0, c2, c3) behind it. The scenario of the specification: the same fan under the
  identity transform and without texture, submitted to a new batch target, stores the six
  vertices c0, c1, c2, c0, c2, c3.
\<close>

theorem TrianglesFan_stored_witness:
  "draw ((BatchTarget_new Points (0::nat) 0 (0::nat))
            \<lparr> m_hasDrawnSomething := True, m_cachedPrimitiveType := Triangles,
              m_vertexArray := [corner 7 7, corner 8 7, corner 7 8] \<rparr>)
        [corner 0 0, corner 1 0, corner 1 1, corner 0 1] TrianglesFan
        ((RenderStates_Default 0 ()) \<lparr> transform := (\<lambda>p. (fst p + 10, snd p + 20)) \<rparr>) =
     Inr ((BatchTarget_new Points 0 0 0)
            \<lparr> m_hasDrawnSomething := True, m_cachedPrimitiveType := Triangles,
              m_vertexArray := [corner 7 7, corner 8 7, corner 7 8,
                                corner 10 20, corner 11 20, corner 11 21,
                                corner 10 20, corner 11 21, corner 10 21] \<rparr>) \<and>
   3 \<le> length [corner 0 0, corner 1 0, corner 1 1, corner 0 1] \<and>
   length [corner 7 7, corner 8 7, corner 7 8,
           corner 10 20, corner 11 20, corner 11 21,
           corner 10 20, corner 11 21, corner 10 21] =
     length [corner 7 7, corner 8 7, corner 7 8] + 3 * (4 - 2) \<and>
   triangles_of (drop (length [corner 7 7, corner 8 7, corner 7 8])
                   [corner 7 7, corner 8 7, corner 7 8,
                    corner 10 20, corner 11 20, corner 11 21,
                    corner 10 20, corner 11 21, corner 10 21]) =
     [(corner 10 20, corner 11 20, corner 11 21), (corner 10 20, corner 11 21, corner 10 21)] \<and>
   draw (BatchTarget_new Points (0::nat) 0 (0::nat))
        [corner 0 0, corner 1 0, corner 1 1, corner 0 1] TrianglesFan (RenderStates_Default 0 ()) =
     Inr ((BatchTarget_new Points 0 0 0)
            \<lparr> m_hasDrawnSomething := True, m_cachedPrimitiveType := Triangles,
              m_vertexArray := [corner 0 0, corner 1 0, corner 1 1,
                                corner 0 0, corner 1 1, corner 0 1] \<rparr>) \<and>
   length [corner 0 0, corner 1 0, corner 1 1, corner 0 0, corner 1 1, corner 0 1] =
     length ([] :: (int \<times> int, nat) Vertex list) + 3 * (4 - 2) \<and>
   triangles_of [corner 0 0, corner 1 0, corner 1 1, corner 0 0, corner 1 1, corner 0 1] =
     [(corner 0 0, corner 1 0, corner 1 1), (corner 0 0, corner 1 1, corner 0 1)]"
proof -
  let ?new = "BatchTarget_new Points (0::nat) 0 (0::nat) :: (int \<times> int, nat, nat, nat) BatchTarget"
  let ?vs = "[corner 0 0, corner 1 0, corner 1 1, corner 0 1]"
  let ?b = "?new \<lparr> m_hasDrawnSomething := True, m_cachedPrimitiveType := Triangles,
              m_vertexArray := [corner 7 7, corner 8 7, corner 7 8] \<rparr>"
  let ?st = "(RenderStates_Default 0 () :: (int \<times> int, nat, unit) RenderStates)
               \<lparr> transform := (\<lambda>p. (fst p + 10, snd p + 20)) \<rparr>"
  let ?b' = "?new \<lparr> m_hasDrawnSomething := True, m_cachedPrimitiveType := Triangles,
              m_vertexArray := [corner 7 7, corner 8 7, corner 7 8,
                                corner 10 20, corner 11 20, corner 11 21,
                                corner 10 20, corner 11 21, corner 10 21] \<rparr>"
  let ?id = "RenderStates_Default 0 () :: (int \<times> int, nat, unit) RenderStates"
  let ?n' = "?new \<lparr> m_hasDrawnSomething := True, m_cachedPrimitiveType := Triangles,
              m_vertexArray := [corner 0 0, corner 1 0, corner 1 1,
                                corner 0 0, corner 1 1, corner 0 1] \<rparr>"
  have h1: "draw ?b ?vs TrianglesFan ?st = Inr ?b'"
    by (simp add: example_defs)
  have h2: "3 \<le> length ?vs" by simp
  have h3: "draw ?new ?vs TrianglesFan ?id = Inr ?n'"
    by (simp add: example_defs)
  from TrianglesFan_stored [OF h1 h2] TrianglesFan_stored [OF h3 h2] h1 h3 show ?thesis
    by (simp add: corner_def)
qed

text \<open>
  C7, as amended. Two consecutive TrianglesStrip submissions into a cycle whose stream
  holds a multiple of three vertices, the first of them with no vertex or with at least
  three: the stream is then the earlier stream, followed by what the first submission
  stores on its own, followed by what the second stores on its own, and the triangles of
  the stream are the earlier triangles, then the triangles (v(k), v(k+1), v(k+2)) of the
  first submission, then those of the second. No triangle holds vertices of both.
\<close>

theorem TrianglesStrip_submissions_separate:
  assumes "draw b vs1 TrianglesStrip st1 = Inr b1"
    and "draw b1 vs2 TrianglesStrip st2 = Inr b2"
    and "length (m_vertexArray b) mod 3 = 0"
    and "vs1 = [] \<or> 3 \<le> length vs1"
  shows "m_vertexArray b2 = m_vertexArray b @ appendVertices TrianglesStrip st1 0 None vs1 [] @
           appendVertices TrianglesStrip st2 0 None vs2 [] \<and>
         triangles_of (m_vertexArray b2) = triangles_of (m_vertexArray b) @
           map (\<lambda>k. (transformedVertex st1 (vs1 ! k), transformedVertex st1 (vs1 ! (k + 1)),
                     transformedVertex st1 (vs1 ! (k + 2)))) [0..<length vs1 - 2] @
           map (\<lambda>k. (transformedVertex st2 (vs2 ! k), transformedVertex st2 (vs2 ! (k + 1)),
                     transformedVertex st2 (vs2 ! (k + 2)))) [0..<length vs2 - 2]"
proof -
  let ?seg1 = "appendVertices TrianglesStrip st1 0 None vs1 []"
  let ?seg2 = "appendVertices TrianglesStrip st2 0 None vs2 []"
  have arr: "m_vertexArray b2 = m_vertexArray b @ ?seg1 @ ?seg2"
    using draw_Inr_vertexArray [OF assms(1)] draw_Inr_vertexArray [OF assms(2)] by simp
  have len1: "length ?seg1 mod 3 = 0"
  proof (cases "vs1 = []")
    case True
    then show ?thesis by simp
  next
    case False
    with assms(4) have "3 \<le> length vs1" by simp
    then show ?thesis
      by (simp add: strip_from_empty length_concat_triples)
  qed
  have "triangles_of (m_vertexArray b2) =
        triangles_of (m_vertexArray b) @ triangles_of ?seg1 @ triangles_of ?seg2"
    using assms(3) len1 by (simp add: arr triangles_of_append)
  then show ?thesis
    using arr by (simp only: strip_triangles simp_thms)
qed

text \<open>
  Two strips, of three and of four corners, submitted to a new batch target.
\<close>

theorem TrianglesStrip_submissions_separate_witness:
  "draw (BatchTarget_new Points (0::nat) 0 (0::nat))
        [corner 0 0, corner 1 0, corner 0 1] TrianglesStrip (RenderStates_Default 0 ()) =
     Inr ((BatchTarget_new Points 0 0 0)
            \<lparr> m_hasDrawnSomething := True, m_cachedPrimitiveType := Triangles,
              m_vertexArray := [corner 0 0, corner 1 0, corner 0 1] \<rparr>) \<and>
   draw ((BatchTarget_new Points (0::nat) 0 (0::nat))
            \<lparr> m_hasDrawnSomething := True, m_cachedPrimitiveType := Triangles,
              m_vertexArray := [corner 0 0, corner 1 0, corner 0 1] \<rparr>)
        [corner 5 5, corner 6 5, corner 5 6, corner 6 6] TrianglesStrip (RenderStates_Default 0 ()) =
     Inr ((BatchTarget_new Points 0 0 0)
            \<lparr> m_hasDrawnSomething := True, m_cachedPrimitiveType := Triangles,
              m_vertexArray := [corner 0 0, corner 1 0, corner 0 1,
                                corner 5 5, corner 6 5, corner 5 6,
                                corner 6 5, corner 5 6, corner 6 6] \<rparr>) \<and>
   length (m_vertexArray (BatchTarget_new Points (0::nat) 0 (0::nat)
             :: (int \<times> int, nat, nat, nat) BatchTarget)) mod 3 = 0 \<and>
   3 \<le> length [corner 0 0, corner 1 0, corner 0 1] \<and>
   triangles_of [corner 0 0, corner 1 0, corner 0 1,
                 corner 5 5, corner 6 5, corner 5 6,
                 corner 6 5, corner 5 6, corner 6 6] =
     [(corner 0 0, corner 1 0, corner 0 1),
      (corner 5 5, corner 6 5, corner 5 6), (corner 6 5, corner 5 6, corner 6 6)]"
proof -
  let ?b = "BatchTarget_new Points (0::nat) 0 (0::nat) :: (int \<times> int, nat, nat, nat) BatchTarget"
  let ?vs1 = "[corner 0 0, corner 1 0, corner 0 1]"
  let ?vs2 = "[corner 5 5, corner 6 5, corner 5 6, corner 6 6]"
  let ?st = "RenderStates_Default 0 () :: (int \<times> int, nat, unit) RenderStates"
  let ?b1 = "?b \<lparr> m_hasDrawnSomething := True, m_cachedPrimitiveType := Triangles,
              m_vertexArray := [corner 0 0, corner 1 0, corner 0 1] \<rparr>"
  let ?b2 = "?b \<lparr> m_hasDrawnSomething := True, m_cachedPrimitiveType := Triangles,
              m_vertexArray := [corner 0 0, corner 1 0, corner 0 1,
                                corner 5 5, corner 6 5, corner 5 6,
                                corner 6 5, corner 5 6, corner 6 6] \<rparr>"
  have h1: "draw ?b ?vs1 TrianglesStrip ?st = Inr ?b1"
    by (simp add: example_defs)
  have h2: "draw ?b1 ?vs2 TrianglesStrip ?st = Inr ?b2"
    by (simp add: example_defs)
  have h3: "length (m_vertexArray ?b) mod 3 = 0"
    by (simp add: example_defs)
  have h4: "?vs1 = [] \<or> 3 \<le> length ?vs1" by simp
  have t: "transformedVertex ?st = (\<lambda>v. v)"
    by (rule ext) (simp add: transformedVertex_def RenderStates_Default_def)
  from TrianglesStrip_submissions_separate [OF h1 h2 h3 h4] h1 h2 h3 show ?thesis
    by (simp add: t)
qed

text \<open>
  C7 as stated fails when the first strip is shorter than a triangle. A strip of two
  corners stores two vertices; the strip of three corners that follows is stored right
  behind them, and the one triangle read from the stream is made of the two corners of
  the first submission and the first corner of the second.
\<close>

theorem TrianglesStrip_short_first_counterexample:
  "draws (BatchTarget_new Points (0::nat) 0 (0::nat))
     [([corner 0 0, corner 1 0], TrianglesStrip, RenderStates_Default 0 ()),
      ([corner 5 5, corner 6 5, corner 5 6], TrianglesStrip, RenderStates_Default 0 ())] =
     Inr ((BatchTarget_new Points 0 0 0)
            \<lparr> m_hasDrawnSomething := True, m_cachedPrimitiveType := Triangles,
              m_vertexArray := [corner 0 0, corner 1 0, corner 5 5, corner 6 5, corner 5 6] \<rparr>) \<and>
   triangles_of [corner 0 0, corner 1 0, corner 5 5, corner 6 5, corner 5 6] =
     [(corner 0 0, corner 1 0, corner 5 5)] \<and>
   corner 0 0 \<in> set [corner 0 0, corner 1 0] \<and>
   corner 0 0 \<notin> set [corner 5 5, corner 6 5, corner 5 6] \<and>
   corner 5 5 \<in> set [corner 5 5, corner 6 5, corner 5 6] \<and>
   corner 5 5 \<notin> set [corner 0 0, corner 1 0]"
  by (simp add: example_defs)

text \<open>
  The same happens when the stream before the two strips is not a whole number of
  triangles: here a Triangles submission of a single vertex precedes two strips of three
  corners, and the second triangle of the stream holds the last corner of the first strip
  and the first two corners of the second.
\<close>

lemma misaligned_stream_example:
  "draws (BatchTarget_new Points (0::nat) 0 (0::nat))
     [([corner 9 9], Triangles, RenderStates_Default 0 ()),
      ([corner 0 0, corner 1 0, corner 0 1], TrianglesStrip, RenderStates_Default 0 ()),
      ([corner 5 5, corner 6 5, corner 5 6], TrianglesStrip, RenderStates_Default 0 ())] =
     Inr ((BatchTarget_new Points 0 0 0)
            \<lparr> m_hasDrawnSomething := True, m_cachedPrimitiveType := Triangles,
              m_vertexArray := [corner 9 9, corner 0 0, corner 1 0, corner 0 1,
                                corner 5 5, corner 6 5, corner 5 6] \<rparr>) \<and>
   triangles_of [corner 9 9, corner 0 0, corner 1 0, corner 0 1,
                 corner 5 5, corner 6 5, corner 5 6] =
     [(corner 9 9, corner 0 0, corner 1 0), (corner 0 1, corner 5 5, corner 6 5)]"
  by (simp add: example_defs)


section \<open>Line strips\<close>

text \<open>
  The LinesStrip branch duplicates the last stored vertex from \<open>i > 0\<close> on, that is
  already before the second input vertex is stored. Every input vertex but the last is
  therefore stored twice in a row and the last once: 2N - 1 vertices for N input vertices,
  read by the surface as the degenerate lines (v0, v0), (v1, v1), ...
\<close>

lemma lines_loop_dup:
  "0 < i \<Longrightarrow> arr \<noteq> [] \<Longrightarrow>
   appendVertices LinesStrip st i fo vs arr =
   butlast arr @ concat (map (\<lambda>v. [v, v]) (butlast (last arr # map (transformedVertex st) vs))) @
     [last (last arr # map (transformedVertex st) vs)]"
proof (induction vs arbitrary: i arr fo)
  case Nil
  then show ?case by simp
next
  case (Cons v vs)
  let ?tv = "transformedVertex st v"
  let ?arr2 = "arr @ [last arr, ?tv]"
  have "appendVertices LinesStrip st i fo (v # vs) arr =
        appendVertices LinesStrip st (Suc i) (if fo = None then Some (length ?arr2 - 1) else fo) vs ?arr2"
    using Cons.prems by (simp add: Let_def)
  also have "\<dots> = butlast ?arr2 @
       concat (map (\<lambda>v. [v, v]) (butlast (last ?arr2 # map (transformedVertex st) vs))) @
       [last (last ?arr2 # map (transformedVertex st) vs)]"
    by (intro Cons.IH) simp_all
  also have "butlast ?arr2 = butlast arr @ [last arr, last arr]"
    using Cons.prems by (simp add: butlast_append)
  finally show ?case by simp
qed

lemma LinesStrip_from_empty:
  assumes "vs \<noteq> []"
  shows "appendVertices LinesStrip st 0 None vs [] =
         concat (map (\<lambda>v. [v, v]) (butlast (map (transformedVertex st) vs))) @
           [last (map (transformedVertex st) vs)]"
proof -
  from assms obtain v0 rest where vs: "vs = v0 # rest" by (cases vs) auto
  have "appendVertices LinesStrip st 0 None vs [] =
        appendVertices LinesStrip st (Suc 0) (Some 0) rest [transformedVertex st v0]"
    by (simp add: vs Let_def)
  also have "\<dots> = concat (map (\<lambda>v. [v, v])
        (butlast (transformedVertex st v0 # map (transformedVertex st) rest))) @
        [last (transformedVertex st v0 # map (transformedVertex st) rest)]"
    by (subst lines_loop_dup) simp_all
  finally show ?thesis by (simp add: vs)
qed

lemma lines_of_dup: "lines_of (concat (map (\<lambda>v. [v, v]) xs) @ [y]) = map (\<lambda>v. (v, v)) xs"
  by (induction xs) simp_all

lemma LinesStrip_stored:
  assumes "draw b vs LinesStrip st = Inr b'" and "vs \<noteq> []"
  shows "length (m_vertexArray b') = length (m_vertexArray b) + (2 * length vs - 1)"
    and "lines_of (drop (length (m_vertexArray b)) (m_vertexArray b')) =
         map (\<lambda>v. (v, v)) (butlast (map (transformedVertex st) vs))"
proof -
  have arr: "m_vertexArray b' = m_vertexArray b @
         concat (map (\<lambda>v. [v, v]) (butlast (map (transformedVertex st) vs))) @
           [last (map (transformedVertex st) vs)]"
    using draw_Inr_vertexArray [OF assms(1)] LinesStrip_from_empty [OF assms(2), of st] by simp
  have "length (concat (map (\<lambda>v. [v, v]) xs)) = 2 * length xs" for xs :: "('a, 'b) Vertex list"
    by (induction xs) simp_all
  with arr assms(2) show "length (m_vertexArray b') = length (m_vertexArray b) + (2 * length vs - 1)"
    by (cases vs) simp_all
  show "lines_of (drop (length (m_vertexArray b)) (m_vertexArray b')) =
         map (\<lambda>v. (v, v)) (butlast (map (transformedVertex st) vs))"
    by (simp add: arr lines_of_dup)
qed

text \<open>
  C1. The claim is that a LinesStrip submission of N vertices, N at least 2, stores
  2(N - 1) vertices that pair up as (v0, v1), (v1, v2), ... The code stores 2N - 1: a strip
  of the two corners c0, c1 submitted to a new batch target stores c0, c0, c1, three
  vertices and not two, and the only line read from them is (c0, c0), not (c0, c1).
\<close>

theorem LinesStrip_two_vertices_stores_three:
  "draw (BatchTarget_new Points (0::nat) 0 (0::nat))
        [corner 0 0, corner 1 0] LinesStrip (RenderStates_Default 0 ()) =
     Inr ((BatchTarget_new Points 0 0 0)
            \<lparr> m_hasDrawnSomething := True, m_cachedPrimitiveType := Lines,
              m_vertexArray := [corner 0 0, corner 0 0, corner 1 0] \<rparr>) \<and>
   length [corner 0 0, corner 0 0, corner 1 0] \<noteq> 2 * (length [corner 0 0, corner 1 0] - 1) \<and>
   lines_of [corner 0 0, corner 0 0, corner 1 0] = [(corner 0 0, corner 0 0)] \<and>
   lines_of [corner 0 0, corner 0 0, corner 1 0] \<noteq> [(corner 0 0, corner 1 0)]"
  by (simp add: example_defs)


section \<open>The committed settings\<close>

text \<open>
  The first submission of a cycle stores the texture, its handle and the primitive type,
  and leaves \<^verbatim>\<open>m_cache.lastBlendMode\<close> as it was; a later submission with the same
  texture and type passes the checks exactly when its blend mode is the one the cache held
  before the cycle began.
\<close>

lemma draw_first_keeps_lastBlendMode:
  assumes "\<not> m_hasDrawnSomething b"
  shows "\<exists>b'. draw b vs ty st = Inr b' \<and> m_cache_lastBlendMode b' = m_cache_lastBlendMode b \<and>
           m_cache_lastTextureId b' = (case texture st of Some t \<Rightarrow> getNativeHandle t | None \<Rightarrow> 0) \<and>
           m_cachedTexture b' = texture st \<and> m_hasDrawnSomething b'"
  using assms by (simp add: draw_def Let_def)

lemma draw_texture_differs:
  assumes "m_hasDrawnSomething b"
    and "(case texture st of Some t \<Rightarrow> getNativeHandle t | None \<Rightarrow> 0) \<noteq> m_cache_lastTextureId b"
  shows "\<exists>e. draw b vs ty st = Inl e"
  using assms by (simp add: draw_def Let_def)

lemma second_draw_compares_old_lastBlendMode:
  assumes "\<not> m_hasDrawnSomething b" and "draw b vs1 ty st = Inr b1"
  shows "(\<exists>b2. draw b1 vs2 ty st = Inr b2) \<longleftrightarrow> m_cache_lastBlendMode b = blendMode st"
    and "m_cache_lastBlendMode b \<noteq> blendMode st \<Longrightarrow> draw b1 vs2 ty st = Inl BlendModeChanged"
  using assms by (auto simp: draw_def Let_def)

lemma draw_target_drawCalls:
  "rt_drawCalls (draw_target b target st) = rt_drawCalls target @
     [\<lparr> dc_view = (if m_viewWasUsed b then m_view b else rt_defaultView target),
        dc_vertices = m_vertexArray b, dc_vertexCount = length (m_vertexArray b),
        dc_type = m_cachedPrimitiveType b,
        dc_states = st\<lparr> texture := m_cachedTexture b, blendMode := m_cache_lastBlendMode b \<rparr> \<rparr>]"
  by (simp add: draw_target_def getView_def getDefaultView_def setView_def RenderTarget_draw_def Let_def)

text \<open>
  C3. The claim is that the first submission of a cycle records the blend mode of its
  render states, that later submissions are compared with it and that drawing the batch
  to a target overlays it. On a new batch target whose cache holds blend mode 0, a first
  submission with blend mode 1 and a texture of handle 7 records the handle 7 and the type
  Triangles, and leaves the cached blend mode 0; the draw call that the target then
  receives carries blend mode 0.
\<close>

theorem first_draw_does_not_record_blendMode:
  "draw (BatchTarget_new Points (0::nat) 0 (0::nat))
        [corner 0 0, corner 1 0, corner 0 1] Triangles
        ((RenderStates_Default 1 ()) \<lparr> texture := Some (Texture 7) \<rparr>) =
     Inr ((BatchTarget_new Points 0 0 0)
            \<lparr> m_hasDrawnSomething := True, m_cachedTexture := Some (Texture 7),
              m_cachedPrimitiveType := Triangles,
              m_vertexArray := [corner 0 0, corner 1 0, corner 0 1],
              m_cache_lastTextureId := 7 \<rparr>) \<and>
   blendMode ((RenderStates_Default (1::nat) ()) \<lparr> texture := Some (Texture 7) \<rparr>) = 1 \<and>
   m_cache_lastBlendMode ((BatchTarget_new Points (0::nat) 0 (0::nat))
            \<lparr> m_hasDrawnSomething := True, m_cachedTexture := Some (Texture 7),
              m_cachedPrimitiveType := Triangles,
              m_vertexArray := [corner 0 0, corner 1 0, corner 0 1],
              m_cache_lastTextureId := 7 \<rparr>) = 0 \<and>
   blendMode (dc_states (last (rt_drawCalls (draw_target
       ((BatchTarget_new Points (0::nat) 0 (0::nat))
            \<lparr> m_hasDrawnSomething := True, m_cachedTexture := Some (Texture 7),
              m_cachedPrimitiveType := Triangles,
              m_vertexArray := [corner 0 0, corner 1 0, corner 0 1],
              m_cache_lastTextureId := 7 \<rparr>)
       \<lparr> rt_view = (0::nat), rt_defaultView = 0, rt_drawCalls = [] \<rparr>
       ((RenderStates_Default (1::nat) ()) \<lparr> texture := Some (Texture 7) \<rparr>))))) = 0"
  by (simp add: example_defs draw_target_drawCalls)

text \<open>
  C5. The claim is that submissions that share texture handle, primitive category and
  blend mode never fail. Two Triangles submissions with the same texture (handle 7) and the
  same blend mode 1, into a new batch target whose cache holds blend mode 0: the second
  fails the blend mode assertion.
\<close>

theorem same_settings_raise_BlendModeChanged:
  "draws (BatchTarget_new Points (0::nat) 0 (0::nat))
     [([corner 0 0, corner 1 0, corner 0 1], Triangles,
       (RenderStates_Default 1 ()) \<lparr> texture := Some (Texture 7) \<rparr>),
      ([corner 5 5, corner 6 5, corner 5 6], Triangles,
       (RenderStates_Default 1 ()) \<lparr> texture := Some (Texture 7) \<rparr>)] =
   Inl BlendModeChanged"
  by (simp add: example_defs)


section \<open>Drawing the batch to a target\<close>

text \<open>
  The view of the target after the call is its view before the call when the batch used
  a view, and the default view of the target otherwise: the saved view is put back only
  under \<^verbatim>\<open>if (m_viewWasUsed)\<close>.
\<close>

lemma draw_target_view:
  "getView (draw_target b target st) =
     (if m_viewWasUsed b then getView target else getDefaultView target)"
  by (simp add: draw_target_def getView_def getDefaultView_def setView_def RenderTarget_draw_def Let_def)

lemma draw_target_restores_used_view:
  "m_viewWasUsed b \<Longrightarrow> getView (draw_target b target st) = getView target"
  by (simp add: draw_target_view)

text \<open>
  C2. The claim is that the view of the target after the call is the view before the
  call, in all cases. A batch that holds one triangle and has used no view, drawn to a
  target whose view is 5 and whose default view is 0, leaves the target with view 0.
\<close>

theorem draw_target_leaves_default_view:
  "getView \<lparr> rt_view = (5::nat), rt_defaultView = 0, rt_drawCalls = [] \<rparr> = 5 \<and>
   \<not> m_viewWasUsed ((BatchTarget_new Points (0::nat) 0 (0::nat))
            \<lparr> m_hasDrawnSomething := True, m_cachedPrimitiveType := Triangles,
              m_vertexArray := [corner 0 0, corner 1 0, corner 0 1] \<rparr>) \<and>
   getView (draw_target
       ((BatchTarget_new Points (0::nat) 0 (0::nat))
            \<lparr> m_hasDrawnSomething := True, m_cachedPrimitiveType := Triangles,
              m_vertexArray := [corner 0 0, corner 1 0, corner 0 1] \<rparr>)
       \<lparr> rt_view = (5::nat), rt_defaultView = 0, rt_drawCalls = [] \<rparr>
       (RenderStates_Default (0::nat) ())) = 0"
  by (simp add: draw_target_def getView_def getDefaultView_def setView_def RenderTarget_draw_def
        example_defs)

text \<open>
  C4. The claim is that drawing a batch without any submission leaves the target as it
  was, its view included. A new batch target (nothing submitted, no view used) drawn to a
  target whose view is 5 and whose default view is 0: the one draw call issued carries no
  vertex, and the target is left with view 0.
\<close>

theorem empty_cycle_draw_target_changes_view:
  "\<not> m_hasDrawnSomething (BatchTarget_new Points (0::nat) 0 (0::nat)
        :: (int \<times> int, nat, nat, nat) BatchTarget) \<and>
   getView \<lparr> rt_view = (5::nat), rt_defaultView = 0, rt_drawCalls = [] \<rparr> = 5 \<and>
   getView (draw_target
       (BatchTarget_new Points (0::nat) 0 (0::nat) :: (int \<times> int, nat, nat, nat) BatchTarget)
       \<lparr> rt_view = (5::nat), rt_defaultView = 0, rt_drawCalls = [] \<rparr>
       (RenderStates_Default (0::nat) ())) = 0 \<and>
   map dc_vertexCount (rt_drawCalls (draw_target
       (BatchTarget_new Points (0::nat) 0 (0::nat) :: (int \<times> int, nat, nat, nat) BatchTarget)
       \<lparr> rt_view = (5::nat), rt_defaultView = 0, rt_drawCalls = [] \<rparr>
       (RenderStates_Default (0::nat) ()))) = [0]"
  by (simp add: draw_target_def getView_def getDefaultView_def setView_def RenderTarget_draw_def
        example_defs)


section \<open>Clearing\<close>

text \<open>
  C10. \<^verbatim>\<open>clear()\<close> resets \<^verbatim>\<open>m_hasDrawnSomething\<close>, nulls the cached texture and
  empties the vertex array; it leaves \<^verbatim>\<open>m_cache.viewChanged\<close>, \<^verbatim>\<open>m_viewWasUsed\<close> and the
  view as they were. A batch drawn to a target right after \<^verbatim>\<open>clear()\<close> is drawn under its
  own view if a view was in use before; the first submission after \<^verbatim>\<open>clear()\<close> always
  succeeds and leaves the view in use if one was declared or in use before, and the batch
  is then drawn under that view. After \<^verbatim>\<open>clearView()\<close> both flags are off, and the batch
  is drawn under the default view of the target.
\<close>

theorem clear_keeps_view_state:
  "m_hasDrawnSomething (clear b) = False \<and> m_cachedTexture (clear b) = None \<and>
   m_vertexArray (clear b) = [] \<and>
   m_cache_viewChanged (clear b) = m_cache_viewChanged b \<and>
   m_viewWasUsed (clear b) = m_viewWasUsed b \<and> m_view (clear b) = m_view b \<and>
   dc_view (last (rt_drawCalls (draw_target (clear b) target st'))) =
     (if m_viewWasUsed b then m_view b else rt_defaultView target) \<and>
   (\<exists>b'. draw (clear b) vs ty st = Inr b' \<and>
      m_viewWasUsed b' = (m_cache_viewChanged b \<or> m_viewWasUsed b) \<and>
      dc_view (last (rt_drawCalls (draw_target b' target st'))) =
        (if m_cache_viewChanged b \<or> m_viewWasUsed b then m_view b else rt_defaultView target)) \<and>
   m_cache_viewChanged (clearView (clear b)) = False \<and>
   m_viewWasUsed (clearView (clear b)) = False \<and>
   (\<exists>b'. draw (clearView (clear b)) vs ty st = Inr b' \<and> m_viewWasUsed b' = False \<and>
      dc_view (last (rt_drawCalls (draw_target b' target st'))) = rt_defaultView target)"
  by (auto simp: clear_def clearView_def draw_def Let_def draw_target_drawCalls)

end
